theory Spec2Isabelle
  imports Main "HOL-Library.Word" "HOL-Library.Multiset"
begin

section \<open>Go values used by the package\<close>

text \<open>
  \<^verbatim>\<open>type set[T comparable] map[T]int64\<close>. A Go map finds its keys with \<^verbatim>\<open>==\<close>, and
  \<^verbatim>\<open>comparable\<close> admits types with values that are not equal to themselves: a
  \<^verbatim>\<open>float64\<close> NaN, or a struct or array that holds one. A value of \<^verbatim>\<open>T\<close> is therefore
  either \<open>Val x\<close>, equal to itself and to the values with the same \<open>x\<close>, or \<open>NaN x\<close>,
  equal to nothing; \<open>x\<close> tells such values apart when they are returned.
\<close>

datatype 'a elem = Val 'a | NaN 'a

text \<open>\<^verbatim>\<open>a == b\<close> on \<^verbatim>\<open>T\<close>.\<close>

fun go_eq :: "'a elem \<Rightarrow> 'a elem \<Rightarrow> bool" where
  "go_eq (Val x) (Val y) = (x = y)"
| "go_eq _ _ = False"

definition self_equal :: "'a elem \<Rightarrow> bool" where
  "self_equal k = go_eq k k"

text \<open>
  \<^verbatim>\<open>int64\<close> and \<^verbatim>\<open>time.Duration\<close> are 64-bit words, compared as signed numbers
  (\<open><s\<close>) and added with wrap-around.
\<close>

type_synonym int64 = "64 word"

text \<open>
  The contents of a map made by \<^verbatim>\<open>make\<close>: \<open>table\<close> holds the entries whose key is equal
  to itself, one for a key; \<open>stray\<close> holds the entries whose key is not, each with the
  \<open>x\<close> of its key. An assignment under such a key adds an entry, and no lookup or
  \<^verbatim>\<open>delete\<close> finds it again; \<^verbatim>\<open>len\<close> and \<^verbatim>\<open>range\<close> do see it.
\<close>

record 'a gomap =
  table :: "'a \<rightharpoonup> int64"
  stray :: "('a \<times> int64) list"

definition empty_map :: "'a gomap" where
  "empty_map = \<lparr>table = Map.empty, stray = []\<rparr>"

text \<open>\<open>None\<close> is the \<^verbatim>\<open>nil\<close> map, \<open>Some m\<close> a map made by \<^verbatim>\<open>make\<close> with contents \<open>m\<close>.\<close>

type_synonym 'a set_map = "'a gomap option"

text \<open>
  The run-time panics the package can raise: an assignment to an entry of a nil map, a
  send on a closed channel, and \<^verbatim>\<open>time.NewTicker\<close> called with an interval that is not
  positive.
\<close>

datatype panic = AssignmentToEntryInNilMap | SendOnClosedChannel | NonPositiveTickerInterval

text \<open>
  \<^verbatim>\<open>v, ok := s[k]\<close>: the zero value and \<^verbatim>\<open>false\<close> for a nil map, for a key that is not
  equal to itself, and for a key without an entry.
\<close>

definition go_index :: "'a set_map \<Rightarrow> 'a elem \<Rightarrow> int64 \<times> bool" where
  "go_index s k =
     (case s of
        None \<Rightarrow> (0, False)
      | Some m \<Rightarrow>
          (case k of
             NaN _ \<Rightarrow> (0, False)
           | Val x \<Rightarrow> (case table m x of None \<Rightarrow> (0, False) | Some v \<Rightarrow> (v, True))))"

text \<open>
  \<^verbatim>\<open>delete(s, k)\<close>: a no-op for a nil map, for a key that is not equal to itself, and
  for a key without an entry.
\<close>

definition go_delete :: "'a set_map \<Rightarrow> 'a elem \<Rightarrow> 'a set_map" where
  "go_delete s k =
     (case s of
        None \<Rightarrow> None
      | Some m \<Rightarrow>
          (case k of
             NaN _ \<Rightarrow> Some m
           | Val x \<Rightarrow> Some (m\<lparr>table := (table m)(x := None)\<rparr>)))"

text \<open>
  \<^verbatim>\<open>s[k] = v\<close>: panics on a nil map; writes the entry of a key that is equal to itself;
  adds an entry for a key that is not.
\<close>

definition go_assign :: "'a set_map \<Rightarrow> 'a elem \<Rightarrow> int64 \<Rightarrow> panic + 'a set_map" where
  "go_assign s k v =
     (case s of
        None \<Rightarrow> Inl AssignmentToEntryInNilMap
      | Some m \<Rightarrow>
          (case k of
             Val x \<Rightarrow> Inr (Some (m\<lparr>table := (table m)(x \<mapsto> v)\<rparr>))
           | NaN x \<Rightarrow> Inr (Some (m\<lparr>stray := stray m @ [(x, v)]\<rparr>))))"

text \<open>\<^verbatim>\<open>len(s)\<close>: the number of entries, 0 for a nil map.\<close>

definition go_len :: "'a set_map \<Rightarrow> nat" where
  "go_len s =
     (case s of None \<Rightarrow> 0 | Some m \<Rightarrow> card (dom (table m)) + length (stray m))"

text \<open>
  The elements that have an entry which a lookup finds, and that entry's value; a nil
  map has none.
\<close>

definition keys :: "'a set_map \<Rightarrow> 'a elem set" where
  "keys s = (case s of None \<Rightarrow> {} | Some m \<Rightarrow> Val ` dom (table m))"

definition entry :: "'a set_map \<Rightarrow> 'a elem \<Rightarrow> int64 option" where
  "entry s k =
     (case s of
        None \<Rightarrow> None
      | Some m \<Rightarrow> (case k of Val x \<Rightarrow> table m x | NaN _ \<Rightarrow> None))"

text \<open>The entries that no lookup finds, and their keys.\<close>

definition stray_entries :: "'a set_map \<Rightarrow> ('a \<times> int64) list" where
  "stray_entries s = (case s of None \<Rightarrow> [] | Some m \<Rightarrow> stray m)"

definition stray_keys :: "'a set_map \<Rightarrow> 'a elem list" where
  "stray_keys s = map (NaN \<circ> fst) (stray_entries s)"

text \<open>
  \<^verbatim>\<open>for k := range s\<close> produces the key of every entry once, in an order that Go leaves
  unspecified and that may differ from one loop to the next. A loop of the model takes
  the order as an argument; \<open>range_order s ks\<close> says that \<open>ks\<close> is one of the orders Go
  may choose for \<open>s\<close>: the keys equal to themselves once each, and the others once for
  each of their entries.
\<close>

definition range_order :: "'a set_map \<Rightarrow> 'a elem list \<Rightarrow> bool" where
  "range_order s ks =
     (distinct (filter self_equal ks)
      \<and> set (filter self_equal ks) = keys s
      \<and> mset (filter (\<lambda>k. \<not> self_equal k) ks) = mset (stray_keys s))"

text \<open>Whether the map still holds an entry with the key \<open>k\<close> that \<^verbatim>\<open>range\<close> is about to produce.\<close>

definition present :: "'a set_map \<Rightarrow> 'a elem \<Rightarrow> bool" where
  "present s k = (k \<in> keys s \<or> k \<in> set (stray_keys s))"

section \<open>set.go\<close>

text \<open>
  The methods have a map receiver and mutate it in place; the model returns the map
  after the call. A method that reads the clock takes the reading,
  \<^verbatim>\<open>time.Now().UnixNano()\<close>, as its argument \<open>now\<close>.
\<close>

definition newSet :: "'a set_map" where
  "newSet = Some empty_map"

definition set_Contains :: "'a set_map \<Rightarrow> 'a elem \<Rightarrow> bool" where
  "set_Contains s elem = (let (_, ok) = go_index s elem in ok)"

definition set_Delete :: "'a set_map \<Rightarrow> 'a elem \<Rightarrow> 'a set_map" where
  "set_Delete s elem = go_delete s elem"

definition set_Len :: "'a set_map \<Rightarrow> nat" where
  "set_Len s = go_len s"

definition set_Expired :: "'a set_map \<Rightarrow> 'a elem \<Rightarrow> int64 \<Rightarrow> bool" where
  "set_Expired s elem now =
     (let (expires, ok) = go_index s elem in
      if \<not> ok then False
      else if 0 <s expires \<and> expires <s now then True
      else False)"

definition set_Expire :: "'a set_map \<Rightarrow> 'a elem \<Rightarrow> int64 \<Rightarrow> 'a set_map" where
  "set_Expire s elem now = (if set_Expired s elem now then set_Delete s elem else s)"

text \<open>
  \<^verbatim>\<open>time.Now().Add(duration).UnixNano()\<close> is the clock reading plus the duration in
  64-bit arithmetic: \<^verbatim>\<open>UnixNano\<close> computes seconds times \<open>10\<^sup>9\<close> plus nanoseconds in
  \<^verbatim>\<open>int64\<close>, which wraps beyond the year 2262.
\<close>

definition set_Add :: "'a set_map \<Rightarrow> 'a elem \<Rightarrow> int64 \<Rightarrow> int64 \<Rightarrow> panic + 'a set_map" where
  "set_Add s elem duration now =
     (let expires = (if 0 <s duration then now + duration else 0)
      in go_assign s elem expires)"

text \<open>
  \<^verbatim>\<open>for k := range s { slice = append(slice, k) }\<close>, the keys produced in the
  order \<open>ks\<close>; \<open>acc\<close> is the slice built so far.
\<close>

fun ToSlice_loop :: "'a elem list \<Rightarrow> 'a elem list \<Rightarrow> 'a elem list" where
  "ToSlice_loop acc [] = acc"
| "ToSlice_loop acc (k # ks) = ToSlice_loop (acc @ [k]) ks"

definition set_ToSlice :: "'a set_map \<Rightarrow> 'a elem list \<Rightarrow> 'a elem list" where
  "set_ToSlice s ks = ToSlice_loop [] ks"

text \<open>
  A \<^verbatim>\<open>range\<close> loop whose body deletes entries: Go does not produce a key whose entry
  was removed before the loop reached it, so each step first looks whether the entry is
  still there.

  \<^verbatim>\<open>for k := range s { delete(s, k) }\<close>
\<close>

fun Clear_loop :: "'a set_map \<Rightarrow> 'a elem list \<Rightarrow> 'a set_map" where
  "Clear_loop s [] = s"
| "Clear_loop s (k # ks) = Clear_loop (if present s k then go_delete s k else s) ks"

definition set_Clear :: "'a set_map \<Rightarrow> 'a elem list \<Rightarrow> 'a set_map" where
  "set_Clear s ks = Clear_loop s ks"

text \<open>
  \<^verbatim>\<open>for k := range s { s.Expire(k) }\<close>: every call of \<^verbatim>\<open>Expire\<close> reads the clock
  again, so the loop takes each key together with the reading its call obtains.
\<close>

fun ExpireAll_loop :: "'a set_map \<Rightarrow> ('a elem \<times> int64) list \<Rightarrow> 'a set_map" where
  "ExpireAll_loop s [] = s"
| "ExpireAll_loop s ((k, now) # rest) =
     ExpireAll_loop (if present s k then set_Expire s k now else s) rest"

definition set_ExpireAll :: "'a set_map \<Rightarrow> ('a elem \<times> int64) list \<Rightarrow> 'a set_map" where
  "set_ExpireAll s visits = ExpireAll_loop s visits"

section \<open>The heap of maps\<close>

text \<open>
  A Go map value is a reference: two values that hold the same reference see each
  other's writes. Where that matters (the value \<^verbatim>\<open>CopySet\<close> hands out), the model keeps
  the maps made so far in a heap of cells. A map value is then \<open>None\<close> for \<^verbatim>\<open>nil\<close> or
  \<open>Some a\<close> for the map in cell \<open>a\<close>; the addresses below \<open>limit\<close> are in use.
\<close>

type_synonym addr = nat

record 'a heap =
  cells :: "addr \<Rightarrow> 'a gomap"
  limit :: addr

definition empty_heap :: "'a heap" where
  "empty_heap = \<lparr>cells = (\<lambda>_. empty_map), limit = 0\<rparr>"

text \<open>The map a reference denotes, as the methods of set.go take it.\<close>

definition load :: "'a heap \<Rightarrow> addr option \<Rightarrow> 'a set_map" where
  "load h r = (case r of None \<Rightarrow> None | Some a \<Rightarrow> Some (cells h a))"

text \<open>
  A method of set.go run on the map behind a reference mutates that map: the contents it
  leaves are written to the cell. Nothing is written through \<^verbatim>\<open>nil\<close>.
\<close>

definition store :: "'a heap \<Rightarrow> addr option \<Rightarrow> 'a set_map \<Rightarrow> 'a heap" where
  "store h r s =
     (case (r, s) of
        (Some a, Some m) \<Rightarrow> h\<lparr>cells := (cells h)(a := m)\<rparr>
      | _ \<Rightarrow> h)"

text \<open>A map that was just made gets the next free cell.\<close>

definition new_ref :: "'a set_map \<Rightarrow> 'a heap \<Rightarrow> addr option \<times> 'a heap" where
  "new_ref s h =
     (case s of
        None \<Rightarrow> (None, h)
      | Some m \<Rightarrow> (Some (limit h), h\<lparr>cells := (cells h)(limit h := m), limit := Suc (limit h)\<rparr>))"

section \<open>cache.go\<close>

text \<open>
  \<^verbatim>\<open>type Cache[T comparable] struct { set[T]; sync.RWMutex; close chan struct{} }\<close>.

  The field \<^verbatim>\<open>set\<close> is \<open>set_ref\<close>. The channel \<^verbatim>\<open>close\<close> is unbuffered; what the methods
  depend on is whether it has been closed. The goroutine started by \<^verbatim>\<open>New\<close> is the only
  receiver on the channel: it waits in its \<^verbatim>\<open>select\<close> until it receives from \<^verbatim>\<open>close\<close>
  and then returns. Every method except \<^verbatim>\<open>Close\<close> holds the \<^verbatim>\<open>RWMutex\<close> for its whole
  body and releases it when it returns or panics (\<^verbatim>\<open>defer\<close>); the model runs one method
  at a time and leaves the mutex out.
\<close>

datatype chan = Open | Closed

datatype goroutine = Waiting | Exited

record Cache =
  set_ref :: "addr option"
  close :: chan
  sweeper :: goroutine

text \<open>A call returns, panics, or blocks forever.\<close>

datatype 'r outcome = Returned 'r | Panicked panic | Blocked

text \<open>
  \<^verbatim>\<open>New\<close> makes the set and the channel, then the ticker (\<^verbatim>\<open>time.NewTicker\<close> panics
  unless the interval is positive), then starts the goroutine.
\<close>

definition New :: "int64 \<Rightarrow> 'a heap \<Rightarrow> (Cache \<times> 'a heap) outcome" where
  "New cleanInterval h =
     (let (r, h') = new_ref newSet h;
          c = \<lparr>set_ref = r, close = Open, sweeper = Waiting\<rparr>
      in if cleanInterval \<le>s 0 then Panicked NonPositiveTickerInterval
         else Returned (c, h'))"

text \<open>
  \<^verbatim>\<open>c.close <- struct{}{}; close(c.close); c.set = nil\<close>. A send on a closed channel
  panics. A send on an open unbuffered channel waits for a receiver: the waiting
  goroutine takes the value and returns; with no receiver left the send never completes.
\<close>

definition Cache_Close :: "Cache \<Rightarrow> Cache outcome" where
  "Cache_Close c =
     (case close c of
        Closed \<Rightarrow> Panicked SendOnClosedChannel
      | Open \<Rightarrow>
          (case sweeper c of
             Exited \<Rightarrow> Blocked
           | Waiting \<Rightarrow> Returned (c\<lparr>sweeper := Exited, close := Closed, set_ref := None\<rparr>)))"

text \<open>
  \<^verbatim>\<open>CopySet\<close> as in the text of cache.go that set.go compiles with (lines 197-203 of
  \<^verbatim>\<open>part_000\<close>): \<^verbatim>\<open>return c.set\<close>, the map value the cache itself holds.
\<close>

definition CopySet :: "Cache \<Rightarrow> 'a heap \<Rightarrow> addr option" where
  "CopySet c h = set_ref c"

text \<open>
  Modelled from the spec: \<^verbatim>\<open>set.Copy\<close>, called by the other text of \<^verbatim>\<open>CopySet\<close> (lines
  68-77 of \<^verbatim>\<open>part_000\<close>) and by \<^verbatim>\<open>Test_set_Copy\<close>, is not in set.go. The spec has "returns an
  independent snapshot mapping (element to expiresAt) decoupled from the live structure",
  the test has the copy deeply equal to the set: a newly made map with the same entries.
\<close>

definition set_Copy :: "'a set_map \<Rightarrow> 'a heap \<Rightarrow> addr option \<times> 'a heap" where
  "set_Copy s h = new_ref (Some (case s of None \<Rightarrow> empty_map | Some m \<Rightarrow> m)) h"

text \<open>\<^verbatim>\<open>CopySet\<close> as in lines 68-77: \<^verbatim>\<open>return c.set.Copy()\<close>.\<close>

definition CopySet_Copy :: "Cache \<Rightarrow> 'a heap \<Rightarrow> addr option \<times> 'a heap" where
  "CopySet_Copy c h = set_Copy (load h (set_ref c)) h"

text \<open>The other methods forward to the method of set.go on \<^verbatim>\<open>c.set\<close>.\<close>

definition Cache_Delete :: "Cache \<Rightarrow> 'a elem \<Rightarrow> 'a heap \<Rightarrow> 'a heap" where
  "Cache_Delete c elem h = store h (set_ref c) (set_Delete (load h (set_ref c)) elem)"

definition Cache_Len :: "Cache \<Rightarrow> 'a heap \<Rightarrow> nat" where
  "Cache_Len c h = set_Len (load h (set_ref c))"

definition Cache_Add :: "Cache \<Rightarrow> 'a elem \<Rightarrow> int64 \<Rightarrow> int64 \<Rightarrow> 'a heap \<Rightarrow> panic + 'a heap" where
  "Cache_Add c elem duration now h =
     (case set_Add (load h (set_ref c)) elem duration now of
        Inl p \<Rightarrow> Inl p
      | Inr s' \<Rightarrow> Inr (store h (set_ref c) s'))"

definition Cache_Contains :: "Cache \<Rightarrow> 'a elem \<Rightarrow> 'a heap \<Rightarrow> bool" where
  "Cache_Contains c elem h = set_Contains (load h (set_ref c)) elem"

definition Cache_ToSlice :: "Cache \<Rightarrow> 'a elem list \<Rightarrow> 'a heap \<Rightarrow> 'a elem list" where
  "Cache_ToSlice c ks h = set_ToSlice (load h (set_ref c)) ks"

definition Cache_Clear :: "Cache \<Rightarrow> 'a elem list \<Rightarrow> 'a heap \<Rightarrow> 'a heap" where
  "Cache_Clear c ks h = store h (set_ref c) (set_Clear (load h (set_ref c)) ks)"

definition Cache_Expire :: "Cache \<Rightarrow> 'a elem \<Rightarrow> int64 \<Rightarrow> 'a heap \<Rightarrow> 'a heap" where
  "Cache_Expire c elem now h = store h (set_ref c) (set_Expire (load h (set_ref c)) elem now)"

definition Cache_ExpireAll :: "Cache \<Rightarrow> ('a elem \<times> int64) list \<Rightarrow> 'a heap \<Rightarrow> 'a heap" where
  "Cache_ExpireAll c visits h =
     store h (set_ref c) (set_ExpireAll (load h (set_ref c)) visits)"

definition Cache_Exists :: "Cache \<Rightarrow> 'a elem \<Rightarrow> 'a heap \<Rightarrow> bool" where
  "Cache_Exists c elem h = set_Contains (load h (set_ref c)) elem"

section \<open>Facts about the map primitives\<close>

lemma self_equal_simps [simp]: "self_equal (Val x)" "\<not> self_equal (NaN x)"
  by (simp_all add: self_equal_def)

lemma go_eq_iff: "go_eq a b \<longleftrightarrow> self_equal a \<and> a = b"
  by (cases a; cases b) simp_all

lemma entry_NaN [simp]: "entry s (NaN x) = None"
  by (simp add: entry_def split: option.splits)

lemma entry_not_self_equal: "\<not> self_equal k \<Longrightarrow> entry s k = None"
  by (cases k) simp_all

lemma entry_go_delete: "entry (go_delete s k) j = (if j = k then None else entry s j)"
  by (cases k; cases j) (simp_all add: entry_def go_delete_def split: option.splits)

lemma stray_go_delete: "stray_entries (go_delete s k) = stray_entries s"
  by (cases k) (simp_all add: stray_entries_def go_delete_def split: option.splits)

lemma keys_entry: "k \<in> keys s \<longleftrightarrow> entry s k \<noteq> None"
  by (cases k) (auto simp: keys_def entry_def split: option.splits)

lemma go_index_entry:
  "go_index s k = (case entry s k of None \<Rightarrow> (0, False) | Some v \<Rightarrow> (v, True))"
  by (cases k) (simp_all add: go_index_def entry_def split: option.splits)

lemma set_Expired_entry:
  "set_Expired s elem now = (case entry s elem of None \<Rightarrow> False | Some x \<Rightarrow> 0 <s x \<and> x <s now)"
  by (simp add: set_Expired_def go_index_entry split: option.splits)

lemma entry_set_Expire:
  "entry (set_Expire s elem now) j =
     (if j = elem \<and> set_Expired s elem now then None else entry s j)"
  by (simp add: set_Expire_def set_Delete_def entry_go_delete)

lemma stray_set_Expire: "stray_entries (set_Expire s elem now) = stray_entries s"
  by (simp add: set_Expire_def set_Delete_def stray_go_delete)

lemma set_Contains_entry: "set_Contains s e = (entry s e \<noteq> None)"
  by (simp add: set_Contains_def go_index_entry split: option.splits)

section \<open>Membership and expiry\<close>

text \<open>
  C3: \<^verbatim>\<open>Contains(e)\<close> is true exactly when \<open>e\<close> is a key of the backing map, whatever
  its expiry timestamp is; in particular it is true for an entry whose expiry has passed
  (\<^verbatim>\<open>Expired\<close> is true) and that has not been removed.
\<close>

theorem Contains_iff_key:
  "set_Contains s e = (e \<in> keys s)
   \<and> (entry s e = Some x \<longrightarrow> set_Contains s e)
   \<and> (set_Expired s e now \<longrightarrow> set_Contains s e)"
  by (auto simp: set_Contains_entry set_Expired_entry keys_entry split: option.splits)

theorem Contains_iff_key_witness:
  "set_Contains (Some \<lparr>table = [''foo'' \<mapsto> 5], stray = []\<rparr>) (Val ''foo'')
   \<and> Val ''foo'' \<in> keys (Some \<lparr>table = [''foo'' \<mapsto> 5], stray = []\<rparr>)
   \<and> set_Expired (Some \<lparr>table = [''foo'' \<mapsto> 5], stray = []\<rparr>) (Val ''foo'') 9
   \<and> \<not> set_Contains (Some \<lparr>table = [''foo'' \<mapsto> 5], stray = []\<rparr>) (Val ''bar'')"
  using Contains_iff_key [of "Some \<lparr>table = [''foo'' \<mapsto> 5], stray = []\<rparr>" "Val ''foo''" 5 9]
    Contains_iff_key [of "Some \<lparr>table = [''foo'' \<mapsto> 5], stray = []\<rparr>" "Val ''bar''" 5 9]
  by (simp add: keys_def entry_def set_Expired_entry word_sless_alt)

text \<open>
  C4: \<^verbatim>\<open>Expired(e)\<close> is true exactly when \<open>e\<close> has an entry whose expiry is strictly
  positive and strictly before the clock reading; it is false for an absent \<open>e\<close>; and
  after \<^verbatim>\<open>Add(e, d)\<close> with \<open>d \<le> 0\<close> it is false at every clock reading.
\<close>

theorem Expired_iff:
  "set_Expired s e now = (\<exists>x. entry s e = Some x \<and> 0 <s x \<and> x <s now)
   \<and> (e \<notin> keys s \<longrightarrow> \<not> set_Expired s e now)
   \<and> (d \<le>s 0 \<and> set_Add s e d t0 = Inr s' \<longrightarrow> \<not> set_Expired s' e t)"
proof -
  have "\<not> set_Expired s' e t" if "d \<le>s 0" "set_Add s e d t0 = Inr s'"
    using that
    by (cases e)
      (auto simp: set_Expired_entry set_Add_def go_assign_def entry_def
                  word_sless_alt word_sle_eq split: option.splits)
  then show ?thesis
    by (auto simp: set_Expired_entry keys_entry split: option.splits)
qed

theorem Expired_iff_witness:
  "set_Expired (Some \<lparr>table = [''foo'' \<mapsto> 5], stray = []\<rparr>) (Val ''foo'') 9
   \<and> \<not> set_Expired (Some \<lparr>table = [''foo'' \<mapsto> 5], stray = []\<rparr>) (Val ''foo'') 5
   \<and> Val ''bar'' \<notin> keys (Some \<lparr>table = [''foo'' \<mapsto> 5], stray = []\<rparr>)
   \<and> \<not> set_Expired (Some \<lparr>table = [''foo'' \<mapsto> 5], stray = []\<rparr>) (Val ''bar'') 9
   \<and> (-1 :: int64) \<le>s 0
   \<and> set_Add (Some \<lparr>table = Map.empty, stray = []\<rparr>) (Val ''foo'') (-1) 7
       = Inr (Some \<lparr>table = [''foo'' \<mapsto> 0], stray = []\<rparr>)
   \<and> \<not> set_Expired (Some \<lparr>table = [''foo'' \<mapsto> 0], stray = []\<rparr>) (Val ''foo'') 0x7FFFFFFFFFFFFFFF"
  using Expired_iff [where s = "Some \<lparr>table = [''foo'' \<mapsto> 5], stray = []\<rparr>" and e = "Val ''foo''"
      and now = 9 and d = 0]
    Expired_iff [where s = "Some \<lparr>table = [''foo'' \<mapsto> 5], stray = []\<rparr>" and e = "Val ''foo''"
      and now = 5 and d = 0]
    Expired_iff [where s = "Some \<lparr>table = [''foo'' \<mapsto> 5], stray = []\<rparr>" and e = "Val ''bar''"
      and now = 9 and d = 0]
    Expired_iff [where s = "Some \<lparr>table = Map.empty, stray = []\<rparr>" and e = "Val ''foo''" and now = 0
      and d = "-1" and ?t0.0 = 7 and s' = "Some \<lparr>table = [''foo'' \<mapsto> 0], stray = []\<rparr>"
      and t = "0x7FFFFFFFFFFFFFFF"]
  by (simp add: keys_def entry_def set_Expired_entry set_Add_def go_assign_def
                word_sless_alt word_sle_eq)

section \<open>Adding an element\<close>

text \<open>
  Signed 64-bit addition of a positive duration either gives the exact sum or, when the
  sum passes \<open>2\<^sup>6\<^sup>3 - 1\<close>, wraps to a negative number.
\<close>

lemma sint_add_pos:
  fixes now d :: int64
  assumes "0 <s d"
  shows "(sint now + sint d < 2 ^ 63 \<longrightarrow> sint (now + d) = sint now + sint d)
         \<and> (2 ^ 63 \<le> sint now + sint d \<longrightarrow> sint (now + d) < 0)"
proof -
  define k where "k = sint now + sint d"
  define r where "r = signed_take_bit 63 k"
  have lo: "- (2 ^ 63) \<le> sint now" and hi: "sint now < 2 ^ 63"
    using sint_range_size [of now] by (simp_all add: word_size)
  have hd: "sint d < 2 ^ 63"
    using sint_range_size [of d] by (simp add: word_size)
  have pos: "0 < sint d"
    using assms by (simp add: word_sless_alt)
  have sum: "sint (now + d) = r"
    by (simp add: sint_word_add r_def k_def)
  have small: "r = k" if "k < 2 ^ 63"
    unfolding r_def using that lo pos
    by (intro signed_take_bit_int_eq_self) (simp_all add: k_def)
  have big: "r \<le> k - 2 ^ Suc 63" if "2 ^ 63 \<le> k"
    unfolding r_def using that by (rule signed_take_bit_int_less_eq)
  have "k < 2 ^ 64"
    using hi hd by (simp add: k_def)
  with big have "r < 0" if "2 ^ 63 \<le> k"
    using that by fastforce
  with small show ?thesis
    unfolding sum k_def [symmetric] by blast
qed

lemma not_Expired_after_Add:
  fixes now d now' :: int64
  assumes "0 <s d" "sint now' \<le> sint now + sint d"
  shows "\<not> (0 <s now + d \<and> now + d <s now')"
proof (cases "sint now + sint d < 2 ^ 63")
  case True
  then have "sint (now + d) = sint now + sint d"
    using sint_add_pos [OF assms(1), of now] by blast
  then show ?thesis using assms(2) by (simp add: word_sless_alt)
next
  case False
  then have "sint (now + d) < 0"
    using sint_add_pos [OF assms(1), of now] by simp
  then show ?thesis by (simp add: word_sless_alt)
qed

lemma set_Add_Val:
  "set_Add (Some m) (Val x) d now
     = Inr (Some (m\<lparr>table := (table m)(x \<mapsto> (if 0 <s d then now + d else 0))\<rparr>))"
  by (simp add: set_Add_def go_assign_def)

lemma set_Add_NaN:
  "set_Add (Some m) (NaN x) d now
     = Inr (Some (m\<lparr>stray := stray m @ [(x, if 0 <s d then now + d else 0)]\<rparr>))"
  by (simp add: set_Add_def go_assign_def)

text \<open>
  C5, as amended. For an element \<open>e\<close> that is equal to itself (\<open>e = Val x\<close>),
  \<^verbatim>\<open>Add(e, d)\<close> on a map inserts or overwrites the entry of \<open>e\<close>: it stores 0 when
  \<open>d \<le> 0\<close> and the clock reading plus \<open>d\<close> when \<open>d > 0\<close> (the exact sum while it fits
  in \<^verbatim>\<open>int64\<close>); the expiry stored before is discarded; and after \<^verbatim>\<open>Add(e, d)\<close> with
  \<open>d > 0\<close>, \<^verbatim>\<open>Contains(e)\<close> is true and \<^verbatim>\<open>Expired(e)\<close> is false at the same clock
  reading and at every reading \<open>now'\<close> up to \<open>now + d\<close>. For an element that is not equal
  to itself (\<open>e = NaN x\<close>), \<^verbatim>\<open>Add(e, d)\<close> overwrites nothing: it adds one more entry with
  that expiry, \<^verbatim>\<open>Len()\<close> grows by one, and \<^verbatim>\<open>Contains(e)\<close> and \<^verbatim>\<open>Expired(e)\<close> are false
  afterwards.
\<close>

theorem Add_stores_expiry:
  "set_Add (Some m) (Val x) d now
     = Inr (Some (m\<lparr>table := (table m)(x \<mapsto> (if 0 <s d then now + d else 0))\<rparr>))
   \<and> set_Add (Some (m\<lparr>table := (table m)(x \<mapsto> y)\<rparr>)) (Val x) d now
     = set_Add (Some m) (Val x) d now
   \<and> (d \<le>s 0 \<longrightarrow>
        entry (Some (m\<lparr>table := (table m)(x \<mapsto> (if 0 <s d then now + d else 0))\<rparr>)) (Val x)
          = Some 0)
   \<and> (0 <s d \<longrightarrow>
        entry (Some (m\<lparr>table := (table m)(x \<mapsto> (if 0 <s d then now + d else 0))\<rparr>)) (Val x)
          = Some (now + d))
   \<and> (0 <s d \<and> sint now + sint d < 2 ^ 63 \<longrightarrow> sint (now + d) = sint now + sint d)
   \<and> (0 <s d \<longrightarrow>
        set_Contains (Some (m\<lparr>table := (table m)(x \<mapsto> now + d)\<rparr>)) (Val x)
        \<and> \<not> set_Expired (Some (m\<lparr>table := (table m)(x \<mapsto> now + d)\<rparr>)) (Val x) now)
   \<and> (0 <s d \<and> sint now' \<le> sint now + sint d \<longrightarrow>
        \<not> set_Expired (Some (m\<lparr>table := (table m)(x \<mapsto> now + d)\<rparr>)) (Val x) now')
   \<and> set_Add (Some m) (NaN x) d now
     = Inr (Some (m\<lparr>stray := stray m @ [(x, if 0 <s d then now + d else 0)]\<rparr>))
   \<and> (set_Add (Some m) (NaN x) d now = Inr s' \<longrightarrow>
        \<not> set_Contains s' (NaN x) \<and> \<not> set_Expired s' (NaN x) now'
        \<and> set_Len s' = set_Len (Some m) + 1
        \<and> entry s' k = entry (Some m) k)"
proof -
  have b: "d \<le>s 0 \<Longrightarrow> \<not> 0 <s d"
    by (simp add: word_sless_alt word_sle_eq)
  have c: "0 <s d \<Longrightarrow> sint now + sint d < 2 ^ 63 \<Longrightarrow> sint (now + d) = sint now + sint d"
    using sint_add_pos [of d now] by blast
  have d: "0 <s d \<Longrightarrow> \<not> set_Expired (Some (m\<lparr>table := (table m)(x \<mapsto> now + d)\<rparr>)) (Val x) now"
    using not_Expired_after_Add [of d now now]
    by (simp add: set_Expired_entry entry_def word_sless_alt)
  have e: "0 <s d \<Longrightarrow> sint now' \<le> sint now + sint d \<Longrightarrow>
      \<not> set_Expired (Some (m\<lparr>table := (table m)(x \<mapsto> now + d)\<rparr>)) (Val x) now'"
    using not_Expired_after_Add [of d now' now]
    by (simp add: set_Expired_entry entry_def)
  have n: "\<not> set_Contains s' (NaN x) \<and> \<not> set_Expired s' (NaN x) now'
      \<and> set_Len s' = set_Len (Some m) + 1 \<and> entry s' k = entry (Some m) k"
    if "set_Add (Some m) (NaN x) d now = Inr s'"
    using that
    by (auto simp: set_Add_NaN set_Contains_entry set_Expired_entry set_Len_def go_len_def
        entry_def split: elem.splits)
  show ?thesis
    using b c d e n
    by (simp add: set_Add_Val set_Add_NaN entry_def set_Contains_entry)
qed

theorem Add_stores_expiry_witness:
  "set_Add (Some \<lparr>table = [''foo'' \<mapsto> 3], stray = []\<rparr>) (Val ''foo'') 60 1000
     = Inr (Some \<lparr>table = [''foo'' \<mapsto> 1060], stray = []\<rparr>)
   \<and> set_Add (Some \<lparr>table = [''foo'' \<mapsto> 3], stray = []\<rparr>) (Val ''foo'') (-5) 1000
     = Inr (Some \<lparr>table = [''foo'' \<mapsto> 0], stray = []\<rparr>)
   \<and> set_Contains (Some \<lparr>table = [''foo'' \<mapsto> 1060], stray = []\<rparr>) (Val ''foo'')
   \<and> \<not> set_Expired (Some \<lparr>table = [''foo'' \<mapsto> 1060], stray = []\<rparr>) (Val ''foo'') 1000
   \<and> \<not> set_Expired (Some \<lparr>table = [''foo'' \<mapsto> 1060], stray = []\<rparr>) (Val ''foo'') 1060
   \<and> set_Add (Some \<lparr>table = [''foo'' \<mapsto> 3], stray = []\<rparr>) (NaN ''foo'') 60 1000
     = Inr (Some \<lparr>table = [''foo'' \<mapsto> 3], stray = [(''foo'', 1060)]\<rparr>)
   \<and> \<not> set_Contains (Some \<lparr>table = [''foo'' \<mapsto> 3], stray = [(''foo'', 1060)]\<rparr>) (NaN ''foo'')
   \<and> set_Len (Some \<lparr>table = [''foo'' \<mapsto> 3], stray = [(''foo'', 1060)]\<rparr>) = 2"
  using Add_stores_expiry [where m = "\<lparr>table = [''foo'' \<mapsto> 3], stray = []\<rparr>" and x = "''foo''"
      and d = 60 and now = 1000 and now' = 1060 and y = 4
      and s' = "Some \<lparr>table = [''foo'' \<mapsto> 3], stray = [(''foo'', 1060)]\<rparr>"]
    Add_stores_expiry [where m = "\<lparr>table = [''foo'' \<mapsto> 3], stray = []\<rparr>" and x = "''foo''"
      and d = "-5" and now = 1000 and now' = 1060 and y = 4]
  by (simp add: word_sless_alt word_sle_eq set_Len_def go_len_def set_Add_Val set_Add_NaN set_Contains_entry set_Expired_entry entry_def)

text \<open>
  For a key that is not equal to itself the entry is neither found nor overwritten: after
  \<^verbatim>\<open>Add(NaN, 60)\<close> on a new set, \<^verbatim>\<open>Contains(NaN)\<close> is false, and a second \<^verbatim>\<open>Add\<close>
  leaves two entries.
\<close>

theorem Add_NaN_counterexample:
  "set_Add newSet (NaN (0::nat)) 60 1000 = Inr (Some (empty_map\<lparr>stray := [(0, 1060)]\<rparr>))
   \<and> \<not> set_Contains (Some (empty_map\<lparr>stray := [(0, 1060)]\<rparr>)) (NaN 0)
   \<and> set_Len (Some (empty_map\<lparr>stray := [(0, 1060)]\<rparr>)) = 1
   \<and> set_Add (Some (empty_map\<lparr>stray := [(0, 1060)]\<rparr>)) (NaN 0) 60 2000
      = Inr (Some (empty_map\<lparr>stray := [(0, 1060), (0, 2060)]\<rparr>))
   \<and> set_Len (Some (empty_map\<lparr>stray := [(0, 1060), (0, 2060)]\<rparr>)) = 2"
  by (simp add: newSet_def empty_map_def set_Add_def go_assign_def set_Contains_def go_index_def
      set_Len_def go_len_def word_sless_alt)

text \<open>
  Beyond the range of \<^verbatim>\<open>int64\<close> the sum wraps: a duration of \<open>2\<^sup>6\<^sup>3 - 1\<close> nanoseconds
  added at clock reading 1 stores the least \<^verbatim>\<open>int64\<close>, which \<^verbatim>\<open>Expired\<close> never
  reports as expired.
\<close>

lemma Add_wraps_far_future:
  "set_Add newSet (Val ''x'') 0x7FFFFFFFFFFFFFFF 1
     = Inr (Some \<lparr>table = [''x'' \<mapsto> 0x8000000000000000], stray = []\<rparr>)
   \<and> sint (0x8000000000000000 :: int64) = - (2 ^ 63)
   \<and> \<not> set_Expired (Some \<lparr>table = [''x'' \<mapsto> 0x8000000000000000], stray = []\<rparr>) (Val ''x'') now"
  by (simp add: newSet_def empty_map_def set_Add_def go_assign_def set_Expired_entry entry_def
      word_sless_alt)

section \<open>Operations on one element\<close>

lemma entry_set_Add:
  "set_Add s e d now = Inr s' \<Longrightarrow>
   entry s' j = (if go_eq e j then Some (if 0 <s d then now + d else 0) else entry s j)"
  by (cases e; cases j)
    (auto simp: set_Add_def go_assign_def entry_def split: option.splits)

text \<open>
  C10: for distinct elements \<open>e\<close> and \<open>f\<close>, each of \<^verbatim>\<open>Add(e, d)\<close>, \<^verbatim>\<open>Delete(e)\<close> and
  \<^verbatim>\<open>Expire(e)\<close> leaves the membership of \<open>f\<close> and its stored expiry as they were; so
  they do when \<open>e\<close> and \<open>f\<close> are the same value that is not equal to itself. None of
  \<^verbatim>\<open>Delete(e)\<close> and \<^verbatim>\<open>Expire(e)\<close> touches an entry that no lookup finds, and
  \<^verbatim>\<open>Add(e, d)\<close> keeps those there are.
\<close>

theorem per_element_frame:
  assumes "e \<noteq> f \<or> \<not> go_eq e f"
  shows "(set_Add s e d now = Inr s' \<longrightarrow>
            entry s' f = entry s f \<and> set_Contains s' f = set_Contains s f
            \<and> set (stray_entries s) \<subseteq> set (stray_entries s'))
       \<and> entry (set_Delete s e) f = entry s f
       \<and> set_Contains (set_Delete s e) f = set_Contains s f
       \<and> stray_entries (set_Delete s e) = stray_entries s
       \<and> entry (set_Expire s e now) f = entry s f
       \<and> set_Contains (set_Expire s e now) f = set_Contains s f
       \<and> stray_entries (set_Expire s e now) = stray_entries s"
proof -
  have ne: "\<not> go_eq e f"
    using assms by (auto simp: go_eq_iff)
  have other: "e \<noteq> f \<or> entry s f = None"
    using ne by (cases "e = f") (auto simp: go_eq_iff entry_not_self_equal)
  have add: "entry s' f = entry s f \<and> set (stray_entries s) \<subseteq> set (stray_entries s')"
    if "set_Add s e d now = Inr s'"
    using entry_set_Add [OF that, of f] ne that
    by (cases e) (auto simp: set_Add_def go_assign_def stray_entries_def split: option.splits)
  have del: "entry (set_Delete s e) f = entry s f"
    using other by (auto simp: set_Delete_def entry_go_delete)
  have exp: "entry (set_Expire s e now) f = entry s f"
    using other by (auto simp: entry_set_Expire)
  show ?thesis
    using add del exp
    by (simp add: set_Contains_entry set_Delete_def stray_go_delete stray_set_Expire)
qed

theorem per_element_frame_witness:
  "Val ''a'' \<noteq> Val ''b''
   \<and> set_Add (Some \<lparr>table = [''b'' \<mapsto> 7], stray = []\<rparr>) (Val ''a'') 60 1000
        = Inr (Some \<lparr>table = [''b'' \<mapsto> 7, ''a'' \<mapsto> 1060], stray = []\<rparr>)
   \<and> entry (Some \<lparr>table = [''b'' \<mapsto> 7, ''a'' \<mapsto> 1060], stray = []\<rparr>) (Val ''b'') = Some 7
   \<and> entry (set_Delete (Some \<lparr>table = [''b'' \<mapsto> 7], stray = []\<rparr>) (Val ''a'')) (Val ''b'') = Some 7
   \<and> entry (set_Expire (Some \<lparr>table = [''b'' \<mapsto> 7], stray = []\<rparr>) (Val ''a'') 1000) (Val ''b'')
        = Some 7
   \<and> set_Contains (set_Delete (Some \<lparr>table = [''b'' \<mapsto> 7], stray = []\<rparr>) (Val ''a'')) (Val ''b'')"
  using per_element_frame [where e = "Val ''a''" and f = "Val ''b''"
      and s = "Some \<lparr>table = [''b'' \<mapsto> 7], stray = []\<rparr>"
      and d = 60 and now = 1000
      and s' = "Some \<lparr>table = [''b'' \<mapsto> 7, ''a'' \<mapsto> 1060], stray = []\<rparr>"]
  by (simp add: set_Add_def go_assign_def entry_def set_Contains_entry word_sless_alt)

section \<open>Length and enumeration\<close>

lemma ToSlice_loop_append: "ToSlice_loop acc ks = acc @ ks"
  by (induction ks arbitrary: acc) simp_all

lemma count_list_distinct_filter:
  "distinct (filter P xs) \<Longrightarrow> P x \<Longrightarrow> x \<in> set xs \<Longrightarrow> count_list xs x = 1"
  by (induction xs) (auto split: if_splits)

lemma count_list_filter: "P x \<Longrightarrow> count_list (filter P xs) x = count_list xs x"
  by (induction xs) auto

lemma length_filter_split:
  "length xs = length (filter P xs) + length (filter (\<lambda>x. \<not> P x) xs)"
  by (induction xs) auto

lemma go_len_keys: "go_len s = card (keys s) + length (stray_keys s)"
proof (cases s)
  case None
  then show ?thesis
    by (simp add: go_len_def keys_def stray_keys_def stray_entries_def)
next
  case (Some m)
  have "card (Val ` dom (table m)) = card (dom (table m))"
    by (rule card_image) (simp add: inj_on_def)
  then show ?thesis
    using Some by (simp add: go_len_def keys_def stray_keys_def stray_entries_def)
qed

lemma keys_self_equal: "k \<in> keys s \<Longrightarrow> self_equal k"
  by (auto simp: keys_def split: option.splits)

lemma stray_keys_not_self_equal: "k \<in> set (stray_keys s) \<Longrightarrow> \<not> self_equal k"
  by (auto simp: stray_keys_def)

text \<open>
  C7: for every order \<open>ks\<close> in which \<^verbatim>\<open>range\<close> may produce the keys, \<^verbatim>\<open>Len()\<close> is the
  length of \<^verbatim>\<open>ToSlice()\<close>, and \<^verbatim>\<open>ToSlice()\<close> holds exactly the keys of the map: each key
  that a lookup finds once, and a key that is not equal to itself once for each of its
  entries. On a map without such keys the slice is distinct and its elements are the
  keys.
\<close>

theorem Len_eq_length_ToSlice:
  assumes "range_order s ks"
  shows "set_Len s = length (set_ToSlice s ks)
       \<and> set (set_ToSlice s ks) = keys s \<union> set (stray_keys s)
       \<and> (\<forall>k \<in> keys s. count_list (set_ToSlice s ks) k = 1)
       \<and> (\<forall>k \<in> set (stray_keys s).
             count_list (set_ToSlice s ks) k = count_list (stray_keys s) k)
       \<and> (stray_keys s = [] \<longrightarrow>
             set (set_ToSlice s ks) = keys s \<and> distinct (set_ToSlice s ks))"
proof -
  let ?ord = "filter self_equal ks" and ?str = "filter (\<lambda>k. \<not> self_equal k) ks"
  have sl: "set_ToSlice s ks = ks"
    by (simp add: set_ToSlice_def ToSlice_loop_append)
  have d: "distinct ?ord" and k: "set ?ord = keys s" and m: "mset ?str = mset (stray_keys s)"
    using assms unfolding range_order_def by blast+
  have "card (keys s) = length ?ord"
    using d k distinct_card [of ?ord] by simp
  moreover have "length ?str = length (stray_keys s)"
    using m by (rule mset_eq_length)
  ultimately have len: "set_Len s = length ks"
    using length_filter_split [of ks self_equal] by (simp add: set_Len_def go_len_keys)
  have e1: "set ?str = set (stray_keys s)"
    using m by (rule mset_eq_setD)
  have e2: "set ks = set ?ord \<union> set ?str"
    by (simp only: set_filter) blast
  have elems: "set ks = keys s \<union> set (stray_keys s)"
    by (rule trans [OF e2]) (simp only: k e1)
  have once: "count_list ks x = 1" if "x \<in> keys s" for x
  proof -
    have "self_equal x" "x \<in> set ks"
      using that k keys_self_equal [of x s] by auto
    then show ?thesis
      using d by (intro count_list_distinct_filter [where P = self_equal])
  qed
  have many: "count_list ks x = count_list (stray_keys s) x" if "x \<in> set (stray_keys s)" for x
  proof -
    have "\<not> self_equal x"
      using that by (rule stray_keys_not_self_equal)
    then have "count_list ks x = count_list ?str x"
      by (simp add: count_list_filter)
    also have "\<dots> = count (mset ?str) x"
      by (simp only: count_mset)
    also have "\<dots> = count_list (stray_keys s) x"
      by (simp only: m count_mset)
    finally show ?thesis .
  qed
  have plain: "set ks = keys s \<and> distinct ks" if "stray_keys s = []"
  proof -
    have "mset ?str = {#}"
      using that by (simp only: m mset.simps)
    then have "?str = []"
      by (simp only: mset_zero_iff)
    then have "\<forall>x \<in> set ks. self_equal x"
      by (simp only: filter_empty_conv) blast
    then have "?ord = ks"
      by (simp only: filter_id_conv)
    then show ?thesis
      using d k by simp
  qed
  show ?thesis
    unfolding sl using len elems once many plain by blast
qed

theorem Len_eq_length_ToSlice_witness:
  "range_order (Some \<lparr>table = [(1::nat) \<mapsto> 0, 2 \<mapsto> 0], stray = [(7, 5)]\<rparr>) [Val 2, NaN 7, Val 1]
   \<and> set_Len (Some \<lparr>table = [(1::nat) \<mapsto> 0, 2 \<mapsto> 0], stray = [(7, 5)]\<rparr>) = 3
   \<and> set_ToSlice (Some \<lparr>table = [(1::nat) \<mapsto> 0, 2 \<mapsto> 0], stray = [(7, 5)]\<rparr>)
        [Val 2, NaN 7, Val 1] = [Val 2, NaN 7, Val 1]"
proof -
  have r: "range_order (Some \<lparr>table = [(1::nat) \<mapsto> 0, 2 \<mapsto> 0], stray = [(7, 5)]\<rparr>)
      [Val 2, NaN 7, Val 1]"
    by (auto simp: range_order_def keys_def stray_keys_def stray_entries_def)
  show ?thesis
    using r Len_eq_length_ToSlice [OF r]
    by (simp add: set_ToSlice_def)
qed

section \<open>Sweeping\<close>

text \<open>
  A visit of the loop of \<^verbatim>\<open>ExpireAll\<close> removes the entry of its own key or nothing, and
  only an entry that a lookup finds.
\<close>

lemma set_Expired_cong: "entry s' k = entry s k \<Longrightarrow> set_Expired s' k now = set_Expired s k now"
  by (simp add: set_Expired_entry)

lemma not_present_not_Expired: "\<not> present s k \<Longrightarrow> \<not> set_Expired s k now"
  by (simp add: present_def keys_entry set_Expired_entry)

lemma ExpireAll_step_entry:
  "entry (if present s k0 then set_Expire s k0 t0 else s) k =
     (if k = k0 \<and> set_Expired s k0 t0 then None else entry s k)"
  using not_present_not_Expired [of s k0 t0] by (simp add: entry_set_Expire)

lemma ExpireAll_loop_entry:
  "entry (ExpireAll_loop s visits) k =
     (if \<exists>now. (k, now) \<in> set visits \<and> set_Expired s k now then None else entry s k)"
proof (induction visits arbitrary: s)
  case Nil
  then show ?case by simp
next
  case (Cons v rest)
  obtain k0 t0 where v: "v = (k0, t0)" by (cases v)
  define s1 where "s1 = (if present s k0 then set_Expire s k0 t0 else s)"
  have step: "entry s1 j = (if j = k0 \<and> set_Expired s k0 t0 then None else entry s j)" for j
    unfolding s1_def by (rule ExpireAll_step_entry)
  have IH: "entry (ExpireAll_loop s1 rest) k =
      (if \<exists>now. (k, now) \<in> set rest \<and> set_Expired s1 k now then None else entry s1 k)"
    by (rule Cons.IH)
  have loop: "ExpireAll_loop s (v # rest) = ExpireAll_loop s1 rest"
    by (simp add: v s1_def)
  show ?case
  proof (cases "k = k0 \<and> set_Expired s k0 t0")
    case True
    then have "entry s1 k = None"
      using step [of k] by simp
    then have "entry (ExpireAll_loop s1 rest) k = None"
      using IH by (simp add: set_Expired_entry)
    moreover have "\<exists>now. (k, now) \<in> set (v # rest) \<and> set_Expired s k now"
      using True v by auto
    ultimately show ?thesis
      by (simp only: loop if_True)
  next
    case False
    then have same: "entry s1 k = entry s k"
      using step [of k] by auto
    then have exp: "set_Expired s1 k now = set_Expired s k now" for now
      by (rule set_Expired_cong)
    have "(\<exists>now. (k, now) \<in> set (v # rest) \<and> set_Expired s k now)
        = (\<exists>now. (k, now) \<in> set rest \<and> set_Expired s k now)"
      using False v by auto
    then show ?thesis
      by (simp only: loop IH exp same)
  qed
qed

lemma ExpireAll_loop_stray: "stray_entries (ExpireAll_loop s visits) = stray_entries s"
  by (induction visits arbitrary: s) (auto simp: stray_set_Expire)

text \<open>
  C6, as amended. \<^verbatim>\<open>ExpireAll\<close> removes exactly the elements for which \<^verbatim>\<open>Expired\<close> is
  true when the call tests them. In full: an element is removed when \<^verbatim>\<open>Expired\<close> holds at
  the clock reading of its visit, and otherwise keeps its entry. When the clock reads
  \<open>now\<close> throughout the call, the entries removed are those with \<^verbatim>\<open>Expired\<close> true at
  \<open>now\<close>: an element whose expiry is not strictly positive or not strictly before \<open>now\<close>
  stays with its expiry unchanged, and an element that a lookup finds (one equal to
  itself) whose strictly positive expiry is strictly before \<open>now\<close> is deleted. An element
  with the sentinel 0 stays at any readings. An entry whose key is not equal to itself is
  never removed, whatever its expiry.
\<close>

theorem ExpireAll_removes_exactly_expired:
  assumes "range_order s (map fst visits)"
  shows "entry (set_ExpireAll s visits) k =
           (if \<exists>now. (k, now) \<in> set visits \<and> set_Expired s k now then None else entry s k)
       \<and> ((\<forall>v \<in> set visits. snd v = now) \<longrightarrow>
            entry (set_ExpireAll s visits) k = (if set_Expired s k now then None else entry s k))
       \<and> ((\<forall>v \<in> set visits. snd v = now) \<and> entry s k = Some x \<and> \<not> (0 <s x \<and> x <s now) \<longrightarrow>
            entry (set_ExpireAll s visits) k = Some x)
       \<and> ((\<forall>v \<in> set visits. snd v = now) \<and> entry s k = Some x \<and> 0 <s x \<and> x <s now \<longrightarrow>
            k \<notin> keys (set_ExpireAll s visits))
       \<and> (entry s k = Some 0 \<longrightarrow> entry (set_ExpireAll s visits) k = Some 0)
       \<and> stray_entries (set_ExpireAll s visits) = stray_entries s"
proof -
  have ks: "set (filter self_equal (map fst visits)) = keys s"
    using assms unfolding range_order_def by blast
  have main: "entry (set_ExpireAll s visits) k =
           (if \<exists>t. (k, t) \<in> set visits \<and> set_Expired s k t then None else entry s k)"
    unfolding set_ExpireAll_def by (rule ExpireAll_loop_entry)
  have const: "entry (set_ExpireAll s visits) k = (if set_Expired s k now then None else entry s k)"
    if c: "\<forall>v \<in> set visits. snd v = now"
  proof (cases "k \<in> keys s")
    case True
    then have "k \<in> set (filter self_equal (map fst visits))"
      by (simp only: ks)
    then have "k \<in> fst ` set visits"
      by simp
    then obtain t where "(k, t) \<in> set visits"
      by force
    moreover have "t = now" if "(k, t) \<in> set visits" for t
      using c that by auto
    ultimately have "(\<exists>t. (k, t) \<in> set visits \<and> set_Expired s k t) = set_Expired s k now"
      by blast
    then show ?thesis by (simp only: main)
  next
    case False
    then have "\<not> set_Expired s k t" for t
      by (simp add: set_Expired_entry keys_entry)
    then show ?thesis using main by simp
  qed
  have zero: "entry (set_ExpireAll s visits) k = Some 0" if "entry s k = Some 0"
    using main that by (simp add: set_Expired_entry word_sless_alt)
  have stay: "entry (set_ExpireAll s visits) k = Some x"
    if "\<forall>v \<in> set visits. snd v = now" "entry s k = Some x" "\<not> (0 <s x \<and> x <s now)"
    using const [OF that(1)] that(2,3) by (simp add: set_Expired_entry)
  have gone: "k \<notin> keys (set_ExpireAll s visits)"
    if "\<forall>v \<in> set visits. snd v = now" "entry s k = Some x" "0 <s x" "x <s now"
    using const [OF that(1)] that(2,3,4) by (simp add: set_Expired_entry keys_entry)
  have strays: "stray_entries (set_ExpireAll s visits) = stray_entries s"
    unfolding set_ExpireAll_def by (rule ExpireAll_loop_stray)
  show ?thesis
    using main const stay gone zero strays by blast
qed

theorem ExpireAll_removes_exactly_expired_witness:
  "range_order (Some \<lparr>table = [''old'' \<mapsto> 5, ''new'' \<mapsto> 20, ''keep'' \<mapsto> 0], stray = []\<rparr>)
     (map fst [(Val ''keep'', 9), (Val ''new'', 9), (Val ''old'', 9 :: int64)])
   \<and> entry (set_ExpireAll (Some \<lparr>table = [''old'' \<mapsto> 5, ''new'' \<mapsto> 20, ''keep'' \<mapsto> 0], stray = []\<rparr>)
        [(Val ''keep'', 9), (Val ''new'', 9), (Val ''old'', 9)]) (Val ''old'') = None
   \<and> entry (set_ExpireAll (Some \<lparr>table = [''old'' \<mapsto> 5, ''new'' \<mapsto> 20, ''keep'' \<mapsto> 0], stray = []\<rparr>)
        [(Val ''keep'', 9), (Val ''new'', 9), (Val ''old'', 9)]) (Val ''new'') = Some 20
   \<and> entry (set_ExpireAll (Some \<lparr>table = [''old'' \<mapsto> 5, ''new'' \<mapsto> 20, ''keep'' \<mapsto> 0], stray = []\<rparr>)
        [(Val ''keep'', 9), (Val ''new'', 9), (Val ''old'', 9)]) (Val ''keep'') = Some 0"
proof -
  let ?s = "Some \<lparr>table = [''old'' \<mapsto> 5, ''new'' \<mapsto> 20, ''keep'' \<mapsto> (0::int64)], stray = []\<rparr>"
  let ?v = "[(Val ''keep'', 9), (Val ''new'', 9), (Val ''old'', 9 :: int64)]"
  have r: "range_order ?s (map fst ?v)"
    by (auto simp: range_order_def keys_def stray_keys_def stray_entries_def)
  have c: "\<forall>v \<in> set ?v. snd v = 9"
    by simp
  have e: "entry ?s (Val ''old'') = Some 5" "entry ?s (Val ''new'') = Some 20"
      "entry ?s (Val ''keep'') = Some 0"
    by (simp_all add: entry_def)
  have old: "entry (set_ExpireAll ?s ?v) (Val ''old'') = None"
    using ExpireAll_removes_exactly_expired [OF r, of "Val ''old''" 9 5,
        THEN conjunct2, THEN conjunct2, THEN conjunct2, THEN conjunct1] c e(1)
    by (simp add: word_sless_alt keys_entry)
  have new: "entry (set_ExpireAll ?s ?v) (Val ''new'') = Some 20"
    using ExpireAll_removes_exactly_expired [OF r, of "Val ''new''" 9 20,
        THEN conjunct2, THEN conjunct2, THEN conjunct1] c e(2)
    by (simp add: word_sless_alt)
  have keep: "entry (set_ExpireAll ?s ?v) (Val ''keep'') = Some 0"
    using ExpireAll_removes_exactly_expired [OF r, of "Val ''keep''" 9 0,
        THEN conjunct2, THEN conjunct2, THEN conjunct2, THEN conjunct2, THEN conjunct1] e(3)
    by simp
  show ?thesis
    using r old new keep by simp
qed

text \<open>
  Not every entry with a strictly positive expiry before the current time is deleted. An
  entry under a key that is not equal to itself stays: with the one entry \<open>NaN \<mapsto> 5\<close>,
  visited at reading 9, \<^verbatim>\<open>ExpireAll\<close> leaves the map as it was.
\<close>

theorem ExpireAll_NaN_counterexample:
  "range_order (Some (empty_map\<lparr>stray := [(0::nat, 5)]\<rparr>)) (map fst [(NaN 0, 9 :: int64)])
   \<and> (0 :: int64) <s 5 \<and> (5 :: int64) <s 9
   \<and> set_ExpireAll (Some (empty_map\<lparr>stray := [(0::nat, 5)]\<rparr>)) [(NaN 0, 9)]
      = Some (empty_map\<lparr>stray := [(0, 5)]\<rparr>)
   \<and> set_Len (Some (empty_map\<lparr>stray := [(0::nat, 5)]\<rparr>)) = 1"
  by (simp add: range_order_def keys_def stray_keys_def stray_entries_def empty_map_def
      set_ExpireAll_def present_def set_Expire_def set_Expired_def go_index_def
      set_Len_def go_len_def word_sless_alt)

text \<open>
  The readings of one call need not agree. With entries \<open>a \<mapsto> 1\<close> and \<open>b \<mapsto> 10\<close>,
  \<open>a\<close> visited at reading 9 and \<open>b\<close> at reading 11, both are removed, \<open>b\<close> because
  its expiry has passed by the time of its own visit.
\<close>

lemma ExpireAll_clock_advances:
  "\<not> set_Expired (Some \<lparr>table = [''a'' \<mapsto> 1, ''b'' \<mapsto> 10], stray = []\<rparr>) (Val ''b'') 9
   \<and> set_ExpireAll (Some \<lparr>table = [''a'' \<mapsto> 1, ''b'' \<mapsto> 10], stray = []\<rparr>)
        [(Val ''a'', 9), (Val ''b'', 11)] = Some \<lparr>table = Map.empty, stray = []\<rparr>"
  by (auto simp: set_ExpireAll_def present_def keys_def set_Expire_def set_Expired_def
      go_index_def set_Delete_def go_delete_def word_sless_alt)

section \<open>The cache\<close>

lemma load_store_same: "load (store h (Some a) (Some m)) (Some a) = Some m"
  by (simp add: load_def store_def)

lemma load_store_other: "r \<noteq> r' \<Longrightarrow> load (store h r' s) r = load h r"
  by (auto simp: load_def store_def split: option.splits)

lemma store_nil: "store h None s = h"
  by (simp add: store_def)

lemma range_order_nil:
  assumes "range_order None ks"
  shows "ks = []"
proof -
  have a: "filter self_equal ks = []"
    using assms by (simp add: range_order_def keys_def)
  have "mset (filter (\<lambda>k. \<not> self_equal k) ks) = {#}"
    using assms by (simp add: range_order_def stray_keys_def stray_entries_def)
  then have b: "filter (\<lambda>k. \<not> self_equal k) ks = []"
    by (simp only: mset_zero_iff)
  have "length ks = length (filter self_equal ks) + length (filter (\<lambda>k. \<not> self_equal k) ks)"
    by (rule length_filter_split)
  then show ?thesis
    by (simp only: a b list.size add_0 length_0_conv)
qed

text \<open>
  C8: \<^verbatim>\<open>Exists\<close> returns what \<^verbatim>\<open>Contains\<close> returns, for every cache, heap and
  element.
\<close>

theorem Exists_eq_Contains: "Cache_Exists c e h = Cache_Contains c e h"
  by (simp add: Cache_Exists_def Cache_Contains_def)

theorem Exists_eq_Contains_witness:
  "Cache_Exists \<lparr>set_ref = Some 0, close = Open, sweeper = Waiting\<rparr> (Val ''x'')
      \<lparr>cells = (\<lambda>_. empty_map)(0 := \<lparr>table = [''x'' \<mapsto> 0], stray = []\<rparr>), limit = 1\<rparr>
   \<and> Cache_Contains \<lparr>set_ref = Some 0, close = Open, sweeper = Waiting\<rparr> (Val ''x'')
      \<lparr>cells = (\<lambda>_. empty_map)(0 := \<lparr>table = [''x'' \<mapsto> 0], stray = []\<rparr>), limit = 1\<rparr>
   \<and> \<not> Cache_Exists \<lparr>set_ref = Some 0, close = Open, sweeper = Waiting\<rparr> (Val ''y'')
      \<lparr>cells = (\<lambda>_. empty_map)(0 := \<lparr>table = [''x'' \<mapsto> 0], stray = []\<rparr>), limit = 1\<rparr>"
  using Exists_eq_Contains [of "\<lparr>set_ref = Some 0, close = Open, sweeper = Waiting\<rparr>" "Val ''x''"
      "\<lparr>cells = (\<lambda>_. empty_map)(0 := \<lparr>table = [''x'' \<mapsto> 0], stray = []\<rparr>), limit = 1\<rparr>"]
  by (simp add: Cache_Exists_def Cache_Contains_def set_Contains_def go_index_def load_def)

subsection \<open>The value handed out by CopySet\<close>

text \<open>
  With \<^verbatim>\<open>return c.set\<close> the caller holds the cache's own map: it reads the current
  contents, and it reads every later write of the cache as well.
\<close>

lemma CopySet_is_live_map:
  assumes "set_ref c = Some a" "Cache_Add c e d now h = Inr h'"
  shows "load h (CopySet c h) = load h (set_ref c)"
    and "set_Add (load h (set_ref c)) e d now = Inr (load h' (CopySet c h))"
  using assms
  by (cases e; auto simp: CopySet_def Cache_Add_def set_Add_def go_assign_def load_def store_def
           split: sum.splits)+

text \<open>
  With \<^verbatim>\<open>return c.set.Copy()\<close> the caller holds a map of its own: it starts with the
  contents of the cache's map, and no later \<^verbatim>\<open>Add\<close>, \<^verbatim>\<open>Delete\<close>, \<^verbatim>\<open>Expire\<close> or
  \<^verbatim>\<open>ExpireAll\<close> on the cache changes it.
\<close>

lemma CopySet_Copy_independent:
  assumes "set_ref c = Some a" "a < limit h" "CopySet_Copy c h = (r, h1)"
  shows "load h1 r = load h (set_ref c)"
    and "Cache_Add c e d now h1 = Inr h2 \<Longrightarrow> load h2 r = load h1 r"
    and "load (Cache_Delete c e h1) r = load h1 r"
    and "load (Cache_Expire c e now h1) r = load h1 r"
    and "load (Cache_ExpireAll c visits h1) r = load h1 r"
proof -
  have r: "r = Some (limit h)" and ne: "r \<noteq> set_ref c"
    using assms by (auto simp: CopySet_Copy_def set_Copy_def new_ref_def)
  show "load h1 r = load h (set_ref c)"
    using assms by (auto simp: CopySet_Copy_def set_Copy_def new_ref_def load_def)
  show "Cache_Add c e d now h1 = Inr h2 \<Longrightarrow> load h2 r = load h1 r"
    using ne by (auto simp: Cache_Add_def load_store_other split: sum.splits)
  show "load (Cache_Delete c e h1) r = load h1 r"
    using ne by (simp add: Cache_Delete_def load_store_other)
  show "load (Cache_Expire c e now h1) r = load h1 r"
    using ne by (simp add: Cache_Expire_def load_store_other)
  show "load (Cache_ExpireAll c visits h1) r = load h1 r"
    using ne by (simp add: Cache_ExpireAll_def load_store_other)
qed

text \<open>
  C1: the mapping returned by \<^verbatim>\<open>CopySet\<close> is to stay as it was when the cache is
  mutated afterwards. With \<^verbatim>\<open>return c.set\<close> it does not: on the cache made by
  \<^verbatim>\<open>New(5)\<close>, \<^verbatim>\<open>CopySet()\<close> returns the map in cell 0, which is empty; after
  \<^verbatim>\<open>Add("x", 0)\<close> at clock reading 1000 the returned map holds \<^verbatim>\<open>"x"\<close>.
\<close>

theorem CopySet_returns_live_map:
  "New 5 (empty_heap :: string heap) =
     Returned (\<lparr>set_ref = Some 0, close = Open, sweeper = Waiting\<rparr>,
               \<lparr>cells = (\<lambda>_. empty_map), limit = 1\<rparr>)
   \<and> CopySet \<lparr>set_ref = Some 0, close = Open, sweeper = Waiting\<rparr>
        \<lparr>cells = (\<lambda>_. empty_map), limit = 1\<rparr> = Some 0
   \<and> load \<lparr>cells = (\<lambda>_. empty_map), limit = 1\<rparr> (Some 0) = Some (empty_map :: string gomap)
   \<and> Cache_Add \<lparr>set_ref = Some 0, close = Open, sweeper = Waiting\<rparr> (Val ''x'') 0 1000
        \<lparr>cells = (\<lambda>_. empty_map), limit = 1\<rparr>
      = Inr \<lparr>cells = (\<lambda>_. empty_map)(0 := \<lparr>table = [''x'' \<mapsto> 0], stray = []\<rparr>), limit = 1\<rparr>
   \<and> load \<lparr>cells = (\<lambda>_. empty_map)(0 := \<lparr>table = [''x'' \<mapsto> 0], stray = []\<rparr>), limit = 1\<rparr> (Some 0) = Some \<lparr>table = [''x'' \<mapsto> 0], stray = []\<rparr>
   \<and> Some \<lparr>table = [''x'' \<mapsto> (0::int64)], stray = []\<rparr> \<noteq> Some (empty_map :: string gomap)"
proof -
  have "[''x'' \<mapsto> (0::int64)] ''x'' \<noteq> (Map.empty :: string \<rightharpoonup> int64) ''x''"
    by simp
  then have "[''x'' \<mapsto> (0::int64)] \<noteq> (Map.empty :: string \<rightharpoonup> int64)"
    by metis
  then show ?thesis
    by (simp add: New_def new_ref_def newSet_def empty_heap_def empty_map_def CopySet_def
        Cache_Add_def set_Add_def go_assign_def load_def store_def word_sle_eq word_sless_alt
        fun_eq_iff)
qed

subsection \<open>Close\<close>

text \<open>
  C2, as amended: a \<^verbatim>\<open>Close\<close> that follows a \<^verbatim>\<open>Close\<close> which returned does not block
  and is not a no-op: it panics with a send on a closed channel.
\<close>

theorem Close_twice_panics:
  "Cache_Close c = Returned c' \<Longrightarrow> Cache_Close c' = Panicked SendOnClosedChannel"
  by (auto simp: Cache_Close_def split: chan.splits goroutine.splits)

theorem Close_twice_panics_witness:
  "Cache_Close \<lparr>set_ref = Some 3, close = Open, sweeper = Waiting\<rparr>
     = Returned \<lparr>set_ref = None, close = Closed, sweeper = Exited\<rparr>
   \<and> Cache_Close \<lparr>set_ref = None, close = Closed, sweeper = Exited\<rparr>
     = Panicked SendOnClosedChannel"
proof -
  have f: "Cache_Close \<lparr>set_ref = Some 3, close = Open, sweeper = Waiting\<rparr>
     = Returned \<lparr>set_ref = None, close = Closed, sweeper = Exited\<rparr>"
    by (simp add: Cache_Close_def)
  show ?thesis
    using f Close_twice_panics [OF f] by simp
qed

text \<open>
  On the cache made by \<^verbatim>\<open>New(5)\<close> the first \<^verbatim>\<open>Close\<close> returns and the second one
  panics.
\<close>

theorem Close_twice_counterexample:
  "map_outcome fst (New 5 (empty_heap :: string heap))
     = Returned \<lparr>set_ref = Some 0, close = Open, sweeper = Waiting\<rparr>
   \<and> Cache_Close \<lparr>set_ref = Some 0, close = Open, sweeper = Waiting\<rparr>
     = Returned \<lparr>set_ref = None, close = Closed, sweeper = Exited\<rparr>
   \<and> Cache_Close \<lparr>set_ref = None, close = Closed, sweeper = Exited\<rparr>
     \<noteq> Returned \<lparr>set_ref = None, close = Closed, sweeper = Exited\<rparr>
   \<and> Cache_Close \<lparr>set_ref = None, close = Closed, sweeper = Exited\<rparr>
     = Panicked SendOnClosedChannel"
  by (simp add: New_def new_ref_def newSet_def empty_heap_def Cache_Close_def word_sle_eq)

text \<open>
  C9: after a \<^verbatim>\<open>Close\<close> that returned, the set of the cache is \<^verbatim>\<open>nil\<close>:
  \<^verbatim>\<open>Contains\<close> and \<^verbatim>\<open>Exists\<close> are false, \<^verbatim>\<open>Len\<close> is 0, \<^verbatim>\<open>ToSlice\<close> is empty,
  \<^verbatim>\<open>Delete\<close>, \<^verbatim>\<open>Clear\<close>, \<^verbatim>\<open>Expire\<close> and \<^verbatim>\<open>ExpireAll\<close> change nothing, and
  \<^verbatim>\<open>Add\<close> panics with an assignment to an entry of a nil map.
\<close>

theorem after_Close_nil_set:
  assumes "Cache_Close c = Returned c'"
  shows "set_ref c' = None
       \<and> \<not> Cache_Contains c' e h
       \<and> \<not> Cache_Exists c' e h
       \<and> Cache_Len c' h = 0
       \<and> (range_order (load h (set_ref c')) ks \<longrightarrow> Cache_ToSlice c' ks h = [])
       \<and> Cache_Delete c' e h = h
       \<and> Cache_Clear c' ks h = h
       \<and> Cache_Expire c' e now h = h
       \<and> Cache_ExpireAll c' visits h = h
       \<and> Cache_Add c' e d now h = Inl AssignmentToEntryInNilMap"
proof -
  have nil: "set_ref c' = None"
    using assms by (auto simp: Cache_Close_def split: chan.splits goroutine.splits)
  then have ld: "load h (set_ref c') = None"
    by (simp add: load_def)
  have "range_order None ks \<Longrightarrow> ks = []"
    by (rule range_order_nil)
  then have sl: "range_order (load h (set_ref c')) ks \<longrightarrow> Cache_ToSlice c' ks h = []"
    by (auto simp: ld Cache_ToSlice_def set_ToSlice_def)
  have rd: "\<not> Cache_Contains c' e h" "\<not> Cache_Exists c' e h" "Cache_Len c' h = 0"
    by (simp_all add: Cache_Contains_def Cache_Exists_def Cache_Len_def ld set_Contains_def
        go_index_def set_Len_def go_len_def)
  have wr: "Cache_Delete c' e h = h" "Cache_Clear c' ks h = h" "Cache_Expire c' e now h = h"
      "Cache_ExpireAll c' visits h = h"
    by (simp_all add: Cache_Delete_def Cache_Clear_def Cache_Expire_def Cache_ExpireAll_def nil
        store_nil)
  have ad: "Cache_Add c' e d now h = Inl AssignmentToEntryInNilMap"
    by (simp add: Cache_Add_def ld set_Add_def go_assign_def)
  show ?thesis
    using nil sl rd wr ad by simp
qed

theorem after_Close_nil_set_witness:
  "Cache_Close \<lparr>set_ref = Some 0, close = Open, sweeper = Waiting\<rparr>
     = Returned \<lparr>set_ref = None, close = Closed, sweeper = Exited\<rparr>
   \<and> range_order (load \<lparr>cells = (\<lambda>_. empty_map)(0 := \<lparr>table = [''x'' \<mapsto> 0], stray = []\<rparr>), limit = 1\<rparr> None) ([] :: string elem list)
   \<and> \<not> Cache_Contains \<lparr>set_ref = None, close = Closed, sweeper = Exited\<rparr> (Val ''x'')
        \<lparr>cells = (\<lambda>_. empty_map)(0 := \<lparr>table = [''x'' \<mapsto> 0], stray = []\<rparr>), limit = 1\<rparr>
   \<and> Cache_Len \<lparr>set_ref = None, close = Closed, sweeper = Exited\<rparr>
        \<lparr>cells = (\<lambda>_. empty_map)(0 := \<lparr>table = [''x'' \<mapsto> 0], stray = []\<rparr>), limit = 1\<rparr> = 0
   \<and> Cache_ToSlice \<lparr>set_ref = None, close = Closed, sweeper = Exited\<rparr> []
        \<lparr>cells = (\<lambda>_. empty_map)(0 := \<lparr>table = [''x'' \<mapsto> 0], stray = []\<rparr>), limit = 1\<rparr> = []
   \<and> Cache_Add \<lparr>set_ref = None, close = Closed, sweeper = Exited\<rparr> (Val ''y'') 60 1000
        \<lparr>cells = (\<lambda>_. empty_map)(0 := \<lparr>table = [''x'' \<mapsto> 0], stray = []\<rparr>), limit = 1\<rparr>
      = Inl AssignmentToEntryInNilMap"
proof -
  have f: "Cache_Close \<lparr>set_ref = Some 0, close = Open, sweeper = Waiting\<rparr>
     = Returned \<lparr>set_ref = None, close = Closed, sweeper = Exited\<rparr>"
    by (simp add: Cache_Close_def)
  have r: "range_order (load \<lparr>cells = (\<lambda>_. empty_map)(0 := \<lparr>table = [''x'' \<mapsto> 0], stray = []\<rparr>), limit = 1\<rparr> None) ([] :: string elem list)"
    by (simp add: range_order_def load_def keys_def stray_keys_def stray_entries_def)
  show ?thesis
    using f r after_Close_nil_set [OF f, of "Val ''x''" "\<lparr>cells = (\<lambda>_. empty_map)(0 := \<lparr>table = [''x'' \<mapsto> 0], stray = []\<rparr>), limit = 1\<rparr>" "[]"]
      after_Close_nil_set [OF f, of "Val ''y''" "\<lparr>cells = (\<lambda>_. empty_map)(0 := \<lparr>table = [''x'' \<mapsto> 0], stray = []\<rparr>), limit = 1\<rparr>" "[]" 1000 "[]" 60]
    by simp
qed

end
